theory Spec2Isabelle
  imports Main "HOL-Library.Sublist"
begin

section \<open>Strings of the mirror script\<close>

text \<open>
  The script works on JavaScript strings. A character is modelled by its code point, for the
  code points below 256 (ASCII and Latin-1), which is what \<^typ>\<open>char\<close> holds. The three string
  operations of the script that matter are \<^verbatim>\<open>toLowerCase\<close>, \<^verbatim>\<open>trim\<close> and \<^verbatim>\<open>includes\<close>.
\<close>

definition lowerChar :: "char \<Rightarrow> char" where
  \<comment> \<open>\<^verbatim>\<open>A\<close>..\<^verbatim>\<open>Z\<close> and the Latin-1 capitals (0xC0..0xDE without the multiplication sign 0xD7)
      move up by 32; every other character stays.\<close>
  "lowerChar c =
     (let n = (of_char c :: nat)
      in if (65 \<le> n \<and> n \<le> 90) \<or> (192 \<le> n \<and> n \<le> 222 \<and> n \<noteq> 215)
         then char_of (n + 32) else c)"

definition toLowerCase :: "string \<Rightarrow> string" where
  "toLowerCase s = map lowerChar s"

definition isWhiteSpace :: "char \<Rightarrow> bool" where
  \<comment> \<open>What \<^verbatim>\<open>String.prototype.trim\<close> strips, below 256: tab, line feed, vertical tab, form
      feed, carriage return, space and the no-break space.\<close>
  "isWhiteSpace c = ((of_char c :: nat) \<in> {9, 10, 11, 12, 13, 32, 160})"

definition trim :: "string \<Rightarrow> string" where
  "trim s = rev (dropWhile isWhiteSpace (rev (dropWhile isWhiteSpace s)))"

fun includes_str :: "string \<Rightarrow> string \<Rightarrow> bool" where
  \<comment> \<open>\<^verbatim>\<open>s.includes(p)\<close>: \<^verbatim>\<open>p\<close> occurs in \<^verbatim>\<open>s\<close> as a contiguous run, at some position.\<close>
  "includes_str [] p = (p = [])"
| "includes_str (c # cs) p = (prefix p (c # cs) \<or> includes_str cs p)"

definition humanPhrases :: "string list" where
  "humanPhrases =
     [''i am human'',
      ''i am a human'',
      ''i am the human'',
      ''i am human being'',
      ''i am a human being'',
      ''i am the human being'',
      ''i am human person'',
      ''i am a human person'',
      ''i am the human person'']"

definition detectHumanPhrase :: "string \<Rightarrow> bool" where
  \<comment> \<open>\<^verbatim>\<open>humanPhrases.some(phrase => transcript.includes(phrase))\<close>\<close>
  "detectHumanPhrase transcript = list_ex (\<lambda>phrase. includes_str transcript phrase) humanPhrases"

definition normalise :: "string \<Rightarrow> string" where
  \<comment> \<open>The \<^verbatim>\<open>onresult\<close> handler: \<^verbatim>\<open>lastResult[0].transcript.toLowerCase().trim()\<close>\<close>
  "normalise utterance = trim (toLowerCase utterance)"

definition phraseMatches :: "string \<Rightarrow> bool" where
  \<comment> \<open>The test of the \<^verbatim>\<open>onresult\<close> handler on the utterance the backend delivered.\<close>
  "phraseMatches utterance = detectHumanPhrase (normalise utterance)"

function show_nat :: "nat \<Rightarrow> string" where
  \<comment> \<open>The decimal digits of a number, as a template literal prints it.\<close>
  "show_nat n =
     (if n < 10 then [char_of (48 + n)]
      else show_nat (n div 10) @ [char_of (48 + n mod 10)])"
  by pat_completeness auto
termination
  by (relation "measure id") auto

declare show_nat.simps [simp del]

definition show_int :: "int \<Rightarrow> string" where
  "show_int i = (if i < 0 then CHR ''-'' # show_nat (nat (- i)) else show_nat (nat i))"

section \<open>The session state\<close>

text \<open>
  The \<^verbatim>\<open>DigitalMirror\<close> object of \<^verbatim>\<open>script.js\<close>. The counters and flags are the fields of the
  class. \<^verbatim>\<open>recognition\<close> says whether \<^verbatim>\<open>this.recognition\<close> holds a recognition object (the
  constructor leaves it undefined, \<^verbatim>\<open>setupSpeechRecognition\<close> assigns it, nothing clears it).
  Of the page, the record keeps what the methods below write: the text and display of the
  listening indicator (\<open>None\<close> when the page has no such element, which
  \<^verbatim>\<open>showListeningIndicator\<close> tests), the humanity readout, the class list of the video element,
  and the \<^verbatim>\<open>style.display\<close> of the panels. The pending \<^verbatim>\<open>setTimeout\<close> callbacks are kept with
  their delay in milliseconds, and the listeners that fallback mode registers are counted,
  since every entry into fallback mode registers them again.

  Not in the record: the inline transform, filter, opacity and clip path of the video element
  and the opacity of the canvas, which the glitch effect and the animation loop set from
  \<^verbatim>\<open>Math.random\<close>; the message text of the error panel; the media stream.
\<close>

datatype timer =
    OnEndRestart          \<comment> \<open>\<^verbatim>\<open>onend\<close>, 500 ms: start the recognition again\<close>
  | RetryRestart          \<comment> \<open>\<^verbatim>\<open>handleSpeechError\<close>, \<^verbatim>\<open>retryDelay\<close>: start it again after an error\<close>
  | SeriousErrorFallback  \<comment> \<open>\<^verbatim>\<open>handleSpeechError\<close>, 2000 ms: fall back\<close>
  | VerdictTransition     \<comment> \<open>\<^verbatim>\<open>processHumanClaim\<close>, 2000 ms: \<^verbatim>\<open>showVerdict\<close>\<close>
  | StatusRestore         \<comment> \<open>\<^verbatim>\<open>processHumanClaim\<close>, 1500 ms: back to the status label\<close>
  | VerdictTextGlitch     \<comment> \<open>\<^verbatim>\<open>showVerdict\<close>, 500 ms: animate the verdict text\<close>

record mirror =
  distortionLevel :: int
  humanityPercentage :: int
  isListening :: bool
  fallbackActive :: bool
  lastTriggerTime :: int
  isProcessing :: bool
  retryCount :: int
  recognition :: bool
  listeningIndicator :: "(string \<times> string) option"  \<comment> \<open>\<^verbatim>\<open>textContent\<close>, \<^verbatim>\<open>style.display\<close>\<close>
  humanityLevel :: string                                 \<comment> \<open>\<^verbatim>\<open>textContent\<close>\<close>
  webcamClasses :: "string list"                          \<comment> \<open>\<^verbatim>\<open>webcam.classList\<close>\<close>
  verdictOverlayDisplay :: string
  overlayDisplay :: string
  cleanInstructionDisplay :: string
  errorMessageDisplay :: string
  verdictTextAnimation :: string
  timers :: "(nat \<times> timer) list"
  keydownListeners :: nat   \<comment> \<open>fallback listeners on the document\<close>
  clickListeners :: nat     \<comment> \<open>fallback listeners on the video element\<close>
  testButtons :: nat        \<comment> \<open>\<^verbatim>\<open>TEST DISTORTION\<close> buttons appended to the page\<close>
  eventListeners :: bool    \<comment> \<open>\<^verbatim>\<open>setupEventListeners\<close> has wired the reset and retry buttons\<close>
  pendingWebcam :: nat      \<comment> \<open>\<^verbatim>\<open>retryWebcam\<close> calls waiting for the camera\<close>

definition maxDistortionLevel :: int where
  "maxDistortionLevel = 5"

definition maxRetries :: int where
  "maxRetries = 5"

definition retryDelay :: nat where
  "retryDelay = 2000"

definition constructed :: "mirror \<Rightarrow> bool" where
  \<comment> \<open>What the constructor assigns; the page's own content is not constrained.\<close>
  "constructed s \<longleftrightarrow>
     distortionLevel s = 0 \<and> humanityPercentage s = 100 \<and> \<not> isListening s \<and>
     \<not> fallbackActive s \<and> lastTriggerTime s = 0 \<and> \<not> isProcessing s \<and> retryCount s = 0 \<and>
     \<not> recognition s \<and> timers s = [] \<and> keydownListeners s = 0 \<and> clickListeners s = 0 \<and>
     testButtons s = 0 \<and> \<not> eventListeners s \<and> pendingWebcam s = 0"

definition freshPage :: mirror where
  \<comment> \<open>A constructed mirror on a page that has the indicator, with empty texts and styles.\<close>
  "freshPage =
     \<lparr>distortionLevel = 0, humanityPercentage = 100, isListening = False,
      fallbackActive = False, lastTriggerTime = 0, isProcessing = False, retryCount = 0,
      recognition = False, listeningIndicator = Some ([], []), humanityLevel = [],
      webcamClasses = [], verdictOverlayDisplay = [], overlayDisplay = [],
      cleanInstructionDisplay = [], errorMessageDisplay = [], verdictTextAnimation = [],
      timers = [], keydownListeners = 0, clickListeners = 0, testButtons = 0,
      eventListeners = False, pendingWebcam = 0\<rparr>"

section \<open>The methods\<close>

definition setTimeout :: "timer \<Rightarrow> nat \<Rightarrow> mirror \<Rightarrow> mirror" where
  "setTimeout t delay s = s\<lparr>timers := timers s @ [(delay, t)]\<rparr>"

definition showListeningIndicator :: "string \<Rightarrow> mirror \<Rightarrow> mirror" where
  "showListeningIndicator text s =
     (case listeningIndicator s of
        None \<Rightarrow> s
      | Some _ \<Rightarrow>
          s\<lparr>listeningIndicator := Some (text, if text \<noteq> [] then ''block'' else ''none'')\<rparr>)"

definition classListAdd :: "string \<Rightarrow> string list \<Rightarrow> string list" where
  "classListAdd c cs = (if c \<in> set cs then cs else cs @ [c])"

definition enableFallbackControls :: "mirror \<Rightarrow> mirror" where
  "enableFallbackControls s =
     s\<lparr>keydownListeners := Suc (keydownListeners s), clickListeners := Suc (clickListeners s)\<rparr>"

definition addTestButton :: "mirror \<Rightarrow> mirror" where
  "addTestButton s = s\<lparr>testButtons := Suc (testButtons s)\<rparr>"

definition fallbackToAlternativeMethods :: "mirror \<Rightarrow> mirror" where
  "fallbackToAlternativeMethods s =
     addTestButton (enableFallbackControls (showListeningIndicator ''Fallback Mode''
       (s\<lparr>fallbackActive := True, isListening := False, retryCount := 0\<rparr>)))"

definition shouldRestart :: "string \<Rightarrow> bool" where
  "shouldRestart error =
     (if error = ''aborted'' then True
      else if error = ''no-speech'' then True
      else if error = ''audio-capture'' then False
      else if error = ''not-allowed'' then False
      else if error = ''network'' then False
      else if error = ''service-not-allowed'' then False
      else True)"

definition speechErrorMessage :: "string \<Rightarrow> string" where
  "speechErrorMessage error =
     (if error = ''aborted'' then ''Speech recognition aborted. Restarting...''
      else if error = ''no-speech'' then ''No speech detected. Continuing to listen...''
      else if error = ''audio-capture'' then ''Microphone not accessible. Please check permissions.''
      else if error = ''not-allowed'' then ''Microphone permission denied. Please allow access.''
      else if error = ''network'' then ''Network error. Please check your connection.''
      else if error = ''service-not-allowed'' then ''Speech recognition service not allowed.''
      else ''Speech recognition error: '' @ error)"

definition handleSpeechError :: "string \<Rightarrow> mirror \<Rightarrow> mirror" where
  "handleSpeechError error s =
     (if shouldRestart error \<and> isListening s then
        (let s1 = s\<lparr>retryCount := retryCount s + 1\<rparr>
         in if retryCount s1 \<le> maxRetries then
              setTimeout RetryRestart retryDelay
                (showListeningIndicator
                   (''Restarting... ('' @ show_int (retryCount s1) @ ''/'' @ show_int maxRetries @ '')'')
                   s1)
            else fallbackToAlternativeMethods s1)
      else
        setTimeout SeriousErrorFallback 2000
          (showListeningIndicator (''Error: '' @ speechErrorMessage error) s))"

definition stopListening :: "mirror \<Rightarrow> mirror" where
  \<comment> \<open>\<^verbatim>\<open>recognition.stop()\<close> acts on the backend; \<^verbatim>\<open>animationId\<close> is never assigned.\<close>
  "stopListening s = s\<lparr>isListening := False\<rparr>"

definition updateDistortion :: "mirror \<Rightarrow> mirror" where
  "updateDistortion s =
     (let s1 = s\<lparr>webcamClasses := []\<rparr>;
          s2 = (if distortionLevel s1 > 0
                then s1\<lparr>webcamClasses :=
                          classListAdd (''distortion-'' @ show_int (distortionLevel s1))
                            (webcamClasses s1)\<rparr>
                else s1);
          s3 = s2\<lparr>humanityLevel :=
                     ''POTENTIAL HUMANITY: '' @ show_int (humanityPercentage s2) @ ''%''\<rparr>
      in if distortionLevel s3 \<ge> maxDistortionLevel
         then s3\<lparr>cleanInstructionDisplay := ''none''\<rparr> else s3)"

definition processHumanClaim :: "mirror \<Rightarrow> mirror" where
  \<comment> \<open>\<^verbatim>\<open>addGlitchEffect\<close> writes only the inline transform and filter of the video element.\<close>
  "processHumanClaim s =
     (if distortionLevel s \<ge> maxDistortionLevel then s
      else
        (let s1 = s\<lparr>distortionLevel := distortionLevel s + 1\<rparr>;
             s2 = s1\<lparr>humanityPercentage := max 0 (100 - distortionLevel s1 * 20)\<rparr>;
             s3 = showListeningIndicator ''Processing...'' (updateDistortion s2)
         in if distortionLevel s3 \<ge> maxDistortionLevel
            then setTimeout VerdictTransition 2000 s3
            else setTimeout StatusRestore 1500 s3))"

definition showVerdict :: "mirror \<Rightarrow> mirror" where
  "showVerdict s =
     setTimeout VerdictTextGlitch 500
       (stopListening
          (s\<lparr>verdictOverlayDisplay := ''flex'', overlayDisplay := ''none'',
             webcamClasses := classListAdd ''distortion-5'' (webcamClasses s)\<rparr>))"

definition resetMirror :: "bool \<Rightarrow> mirror \<Rightarrow> mirror" where
  \<comment> \<open>The flag says whether \<^verbatim>\<open>this.recognition.start()\<close> returns; it throws when the backend is
      already started, and then the rest of the method does not run.\<close>
  "resetMirror start_ok s =
     (let s1 = s\<lparr>distortionLevel := 0, humanityPercentage := 100, lastTriggerTime := 0,
                  isProcessing := False, webcamClasses := [],
                  verdictOverlayDisplay := ''none'', overlayDisplay := ''block'',
                  cleanInstructionDisplay := ''block''\<rparr>
      in if recognition s1 then
           (let s2 = s1\<lparr>retryCount := 0\<rparr>
            in if start_ok
               then (showListeningIndicator ''Listening...'' (s2\<lparr>isListening := True\<rparr>))
                      \<lparr>humanityLevel := ''POTENTIAL HUMANITY: 100%''\<rparr>
               else s2)
         else if fallbackActive s1 then
           (showListeningIndicator ''Fallback Mode'' s1)
             \<lparr>humanityLevel := ''POTENTIAL HUMANITY: 100%''\<rparr>
         else
           (showListeningIndicator [] s1)\<lparr>humanityLevel := ''POTENTIAL HUMANITY: 100%''\<rparr>)"

definition showError :: "mirror \<Rightarrow> mirror" where
  "showError s = s\<lparr>errorMessageDisplay := ''block'', overlayDisplay := ''none''\<rparr>"

definition setupSpeechRecognition :: "bool \<Rightarrow> mirror \<Rightarrow> mirror" where
  \<comment> \<open>The flag says whether the first \<^verbatim>\<open>this.recognition.start()\<close> returns.\<close>
  "setupSpeechRecognition start_ok s =
     (let s1 = s\<lparr>recognition := True\<rparr>
      in if start_ok then s1\<lparr>isListening := True\<rparr>
         else handleSpeechError ''start-failed'' s1)"

datatype speech_support =
    Unsupported        \<comment> \<open>no recognition constructor on the window, or it throws\<close>
  | Supported bool     \<comment> \<open>a recognition object, and whether its first start returns\<close>

definition setupAudioDetection :: "speech_support \<Rightarrow> mirror \<Rightarrow> mirror" where
  "setupAudioDetection support s =
     (let s1 = showListeningIndicator ''Initializing...'' s
      in case support of
           Unsupported \<Rightarrow> fallbackToAlternativeMethods s1
         | Supported start_ok \<Rightarrow> setupSpeechRecognition start_ok s1)"

definition setupEventListeners :: "mirror \<Rightarrow> mirror" where
  "setupEventListeners s = s\<lparr>eventListeners := True\<rparr>"

definition init :: "bool \<Rightarrow> speech_support \<Rightarrow> mirror \<Rightarrow> mirror" where
  \<comment> \<open>The flag says whether the camera was granted. \<^verbatim>\<open>setupFallbackControls\<close> is empty and
      \<^verbatim>\<open>startDistortionLoop\<close> writes only the canvas opacity.\<close>
  "init webcam_ok support s =
     (if webcam_ok then setupEventListeners (setupAudioDetection support s)
      else showError (showError s))"

section \<open>Callbacks and events\<close>

definition onresult :: "string \<Rightarrow> mirror \<Rightarrow> mirror" where
  \<comment> \<open>The argument is the transcript of the first alternative of the last result.\<close>
  "onresult utterance s =
     (let transcript = trim (toLowerCase utterance)
      in if detectHumanPhrase transcript then processHumanClaim s else s)"

definition onstart :: "mirror \<Rightarrow> mirror" where
  "onstart s = showListeningIndicator ''Listening...'' s"

definition onend :: "mirror \<Rightarrow> mirror" where
  "onend s = (if isListening s then setTimeout OnEndRestart 500 s else s)"

definition runTimer :: "timer \<Rightarrow> bool \<Rightarrow> mirror \<Rightarrow> mirror" where
  \<comment> \<open>The body of each \<^verbatim>\<open>setTimeout\<close> callback. The flag says whether the
      \<^verbatim>\<open>this.recognition.start()\<close> of the two restart callbacks returns.\<close>
  "runTimer t start_ok s =
     (case t of
        OnEndRestart \<Rightarrow>
          if isListening s \<and> recognition s
          then (if start_ok then s else handleSpeechError ''restart-failed'' s)
          else s
      | RetryRestart \<Rightarrow>
          if isListening s \<and> recognition s
          then (if start_ok then showListeningIndicator ''Listening...'' s
                else handleSpeechError ''restart-failed'' s)
          else s
      | SeriousErrorFallback \<Rightarrow> fallbackToAlternativeMethods s
      | VerdictTransition \<Rightarrow> showVerdict s
      | StatusRestore \<Rightarrow>
          if recognition s then showListeningIndicator ''Listening...'' s
          else showListeningIndicator ''Fallback Mode'' s
      | VerdictTextGlitch \<Rightarrow> s\<lparr>verdictTextAnimation := ''glitch 0.3s infinite''\<rparr>)"

definition keydownHandler :: "string \<Rightarrow> string \<Rightarrow> mirror \<Rightarrow> mirror" where
  \<comment> \<open>One \<^verbatim>\<open>keydown\<close> listener of \<^verbatim>\<open>enableFallbackControls\<close>, on \<^verbatim>\<open>event.code\<close> and \<^verbatim>\<open>event.key\<close>.\<close>
  "keydownHandler code key s =
     (if code = ''Space'' \<or> toLowerCase key = ''h'' then processHumanClaim s else s)"

definition retryWebcam :: "mirror \<Rightarrow> mirror" where
  \<comment> \<open>Up to the \<^verbatim>\<open>await\<close> on the camera.\<close>
  "retryWebcam s = s\<lparr>errorMessageDisplay := ''none'', pendingWebcam := Suc (pendingWebcam s)\<rparr>"

definition retryWebcamResume :: "bool \<Rightarrow> speech_support \<Rightarrow> mirror \<Rightarrow> mirror" where
  \<comment> \<open>After the \<^verbatim>\<open>await\<close>: the camera was granted or not.\<close>
  "retryWebcamResume webcam_ok support s =
     (let s1 = s\<lparr>pendingWebcam := pendingWebcam s - 1\<rparr>
      in if webcam_ok then setupAudioDetection support (s1\<lparr>overlayDisplay := ''block''\<rparr>)
         else showError (showError s1))"

definition cleanup :: "mirror \<Rightarrow> mirror" where
  "cleanup s = stopListening s"

datatype event =
    Result string               \<comment> \<open>the backend delivers an utterance\<close>
  | RecognitionError string     \<comment> \<open>\<^verbatim>\<open>onerror\<close> with \<^verbatim>\<open>event.error\<close>\<close>
  | RecognitionStart
  | RecognitionEnd
  | Timeout nat timer bool      \<comment> \<open>a pending timer fires\<close>
  | KeyDown string string       \<comment> \<open>\<^verbatim>\<open>event.code\<close>, \<^verbatim>\<open>event.key\<close>\<close>
  | WebcamClick
  | TestButtonClick
  | ResetClick bool
  | RetryClick
  | WebcamAnswer bool speech_support
  | VisibilityChange
  | BeforeUnload

fun enabled :: "event \<Rightarrow> mirror \<Rightarrow> bool" where
  "enabled (Result _) s = recognition s"
| "enabled (RecognitionError _) s = recognition s"
| "enabled RecognitionStart s = recognition s"
| "enabled RecognitionEnd s = recognition s"
| "enabled (Timeout delay t _) s = ((delay, t) \<in> set (timers s))"
| "enabled TestButtonClick s = (0 < testButtons s)"
| "enabled (ResetClick _) s = eventListeners s"
| "enabled RetryClick s = eventListeners s"
| "enabled (WebcamAnswer _ _) s = (0 < pendingWebcam s)"
| "enabled _ s = True"

fun step :: "event \<Rightarrow> mirror \<Rightarrow> mirror" where
  "step (Result utterance) s = onresult utterance s"
| "step (RecognitionError error) s = handleSpeechError error s"
| "step RecognitionStart s = onstart s"
| "step RecognitionEnd s = onend s"
| "step (Timeout delay t start_ok) s =
     runTimer t start_ok (s\<lparr>timers := remove1 (delay, t) (timers s)\<rparr>)"
| "step (KeyDown code key) s = (keydownHandler code key ^^ keydownListeners s) s"
| "step WebcamClick s = (processHumanClaim ^^ clickListeners s) s"
| "step TestButtonClick s = processHumanClaim s"
| "step (ResetClick start_ok) s = resetMirror start_ok s"
| "step RetryClick s = retryWebcam s"
| "step (WebcamAnswer webcam_ok support) s = retryWebcamResume webcam_ok support s"
| "step VisibilityChange s = s"
| "step BeforeUnload s = cleanup s"

text \<open>
  The states a session can be in between two callbacks: the constructed object while
  \<^verbatim>\<open>init\<close> waits for the camera, the state \<^verbatim>\<open>init\<close> leaves, and every state an enabled
  event leads to. Timers fire in any order.
\<close>

inductive reachable :: "mirror \<Rightarrow> bool" where
  constructed: "constructed s \<Longrightarrow> reachable s"
| initialised: "constructed s \<Longrightarrow> reachable (init webcam_ok support s)"
| event: "reachable s \<Longrightarrow> enabled e s \<Longrightarrow> reachable (step e s)"

definition run :: "event list \<Rightarrow> mirror \<Rightarrow> mirror" where
  \<comment> \<open>The events of the list, one after the other.\<close>
  "run es s = foldl (\<lambda>s e. step e s) s es"

definition speechErrors :: "string list \<Rightarrow> mirror \<Rightarrow> mirror" where
  \<comment> \<open>Consecutive calls of the error handler, one for each error of the list.\<close>
  "speechErrors errors s = foldl (\<lambda>s e. handleSpeechError e s) s errors"

definition permanentErrors :: "string list" where
  "permanentErrors = [''audio-capture'', ''not-allowed'', ''network'', ''service-not-allowed'']"

definition claimEvents :: "nat \<Rightarrow> mirror \<Rightarrow> mirror" where
  \<comment> \<open>That many claim events in a row, each one call of \<^verbatim>\<open>processHumanClaim\<close>.\<close>
  "claimEvents n s = (processHumanClaim ^^ n) s"

definition listeningPage :: mirror where
  \<comment> \<open>The fresh page after \<^verbatim>\<open>init\<close>, with the camera granted and the recognition started.\<close>
  "listeningPage = init True (Supported True) freshPage"

definition consistent :: "mirror \<Rightarrow> bool" where
  \<comment> \<open>The level is in range and the percentage is the one derived from it.\<close>
  "consistent s \<longleftrightarrow>
     0 \<le> distortionLevel s \<and> distortionLevel s \<le> 5 \<and>
     humanityPercentage s = max 0 (100 - 20 * distortionLevel s)"

definition retryInv :: "mirror \<Rightarrow> bool" where
  \<comment> \<open>The retry counter is within its budget, and without a recognition object nothing
      listens and nothing was retried.\<close>
  "retryInv s \<longleftrightarrow>
     0 \<le> retryCount s \<and> retryCount s \<le> maxRetries \<and>
     (\<not> recognition s \<longrightarrow> retryCount s = 0 \<and> \<not> isListening s)"


fun allEnabled :: "event list \<Rightarrow> mirror \<Rightarrow> bool" where
  \<comment> \<open>Each event of the list can happen in the state its predecessors lead to.\<close>
  "allEnabled [] s = True"
| "allEnabled (e # es) s = (enabled e s \<and> allEnabled es (step e s))"

section \<open>Frame lemmas\<close>

lemma showListeningIndicator_frame [simp]:
  "distortionLevel (showListeningIndicator t s) = distortionLevel s"
  "humanityPercentage (showListeningIndicator t s) = humanityPercentage s"
  "isListening (showListeningIndicator t s) = isListening s"
  "fallbackActive (showListeningIndicator t s) = fallbackActive s"
  "retryCount (showListeningIndicator t s) = retryCount s"
  "recognition (showListeningIndicator t s) = recognition s"
  "verdictOverlayDisplay (showListeningIndicator t s) = verdictOverlayDisplay s"
  "timers (showListeningIndicator t s) = timers s"
  "keydownListeners (showListeningIndicator t s) = keydownListeners s"
  "clickListeners (showListeningIndicator t s) = clickListeners s"
  "testButtons (showListeningIndicator t s) = testButtons s"
  by (simp_all add: showListeningIndicator_def split: option.splits)

lemma showListeningIndicator_text:
  "listeningIndicator (showListeningIndicator t s) =
     (if listeningIndicator s = None then None
      else Some (t, if t \<noteq> [] then ''block'' else ''none''))"
  by (simp add: showListeningIndicator_def split: option.splits)

lemma setTimeout_frame [simp]:
  "distortionLevel (setTimeout t d s) = distortionLevel s"
  "humanityPercentage (setTimeout t d s) = humanityPercentage s"
  "isListening (setTimeout t d s) = isListening s"
  "fallbackActive (setTimeout t d s) = fallbackActive s"
  "retryCount (setTimeout t d s) = retryCount s"
  "recognition (setTimeout t d s) = recognition s"
  "verdictOverlayDisplay (setTimeout t d s) = verdictOverlayDisplay s"
  "listeningIndicator (setTimeout t d s) = listeningIndicator s"
  "keydownListeners (setTimeout t d s) = keydownListeners s"
  "clickListeners (setTimeout t d s) = clickListeners s"
  "testButtons (setTimeout t d s) = testButtons s"
  "timers (setTimeout t d s) = timers s @ [(d, t)]"
  by (simp_all add: setTimeout_def)

lemma updateDistortion_frame [simp]:
  "distortionLevel (updateDistortion s) = distortionLevel s"
  "humanityPercentage (updateDistortion s) = humanityPercentage s"
  "isListening (updateDistortion s) = isListening s"
  "fallbackActive (updateDistortion s) = fallbackActive s"
  "retryCount (updateDistortion s) = retryCount s"
  "recognition (updateDistortion s) = recognition s"
  "verdictOverlayDisplay (updateDistortion s) = verdictOverlayDisplay s"
  "listeningIndicator (updateDistortion s) = listeningIndicator s"
  "keydownListeners (updateDistortion s) = keydownListeners s"
  "clickListeners (updateDistortion s) = clickListeners s"
  "testButtons (updateDistortion s) = testButtons s"
  "timers (updateDistortion s) = timers s"
  by (simp_all add: updateDistortion_def Let_def)

lemma claim_ceiling: "5 \<le> distortionLevel s \<Longrightarrow> processHumanClaim s = s"
  by (simp add: processHumanClaim_def maxDistortionLevel_def)

lemma claim_level:
  "distortionLevel (processHumanClaim s) =
     (if 5 \<le> distortionLevel s then distortionLevel s else distortionLevel s + 1)"
  by (simp add: processHumanClaim_def maxDistortionLevel_def Let_def)

lemma claim_humanity:
  "distortionLevel s < 5 \<Longrightarrow>
     humanityPercentage (processHumanClaim s) = max 0 (100 - 20 * (distortionLevel s + 1))"
  by (simp add: processHumanClaim_def maxDistortionLevel_def Let_def)

lemma processHumanClaim_frame [simp]:
  "isListening (processHumanClaim s) = isListening s"
  "fallbackActive (processHumanClaim s) = fallbackActive s"
  "retryCount (processHumanClaim s) = retryCount s"
  "recognition (processHumanClaim s) = recognition s"
  "verdictOverlayDisplay (processHumanClaim s) = verdictOverlayDisplay s"
  "keydownListeners (processHumanClaim s) = keydownListeners s"
  "clickListeners (processHumanClaim s) = clickListeners s"
  "testButtons (processHumanClaim s) = testButtons s"
  by (simp_all add: processHumanClaim_def Let_def)

lemma claim_indicator:
  "distortionLevel s < 5 \<Longrightarrow> listeningIndicator s \<noteq> None \<Longrightarrow>
     listeningIndicator (processHumanClaim s) = Some (''Processing...'', ''block'')"
  by (auto simp: processHumanClaim_def maxDistortionLevel_def Let_def showListeningIndicator_text)

lemma claim_indicator_present:
  "listeningIndicator s \<noteq> None \<Longrightarrow> listeningIndicator (processHumanClaim s) \<noteq> None"
  by (auto simp: processHumanClaim_def maxDistortionLevel_def Let_def showListeningIndicator_text)

lemma claim_timers:
  "distortionLevel s < 4 \<Longrightarrow>
     timers (processHumanClaim s) = timers s @ [(1500, StatusRestore)]"
  "distortionLevel s = 4 \<Longrightarrow>
     timers (processHumanClaim s) = timers s @ [(2000, VerdictTransition)]"
  by (simp_all add: processHumanClaim_def maxDistortionLevel_def Let_def)

lemma funpow_fixed: "f s = s \<Longrightarrow> (f ^^ n) s = s"
  by (induction n) simp_all

lemma funpow_preserves: "(\<And>x. P x \<Longrightarrow> P (f x)) \<Longrightarrow> P s \<Longrightarrow> P ((f ^^ n) s)"
  by (induction n) simp_all

lemma consistent_claim: "consistent s \<Longrightarrow> consistent (processHumanClaim s)"
  unfolding consistent_def
  by (cases "distortionLevel s < 5") (simp_all add: claim_level claim_humanity claim_ceiling)

lemma consistent_claimEvents: "consistent s \<Longrightarrow> consistent (claimEvents n s)"
  unfolding claimEvents_def by (rule funpow_preserves [where P = consistent, OF consistent_claim])

lemma claimEvents_Suc: "claimEvents (Suc n) s = processHumanClaim (claimEvents n s)"
  by (simp add: claimEvents_def)

lemma claimEvents_0: "claimEvents 0 s = s"
  by (simp add: claimEvents_def)

lemma level_mono:
  "m \<le> n \<Longrightarrow> distortionLevel (claimEvents m s) \<le> distortionLevel (claimEvents n s)"
proof (induction n)
  case 0
  then show ?case by simp
next
  case (Suc n)
  show ?case
  proof (cases "m = Suc n")
    case True
    then show ?thesis by simp
  next
    case False
    with Suc.prems have "m \<le> n" by simp
    from Suc.IH [OF this] show ?thesis
      by (simp add: claimEvents_Suc claim_level)
  qed
qed

lemma freshPage_fields:
  "distortionLevel freshPage = 0" "humanityPercentage freshPage = 100"
  "listeningIndicator freshPage = Some ([], [])" "retryCount freshPage = 0"
  "\<not> isListening freshPage" "\<not> fallbackActive freshPage" "\<not> recognition freshPage"
  "timers freshPage = []" "keydownListeners freshPage = 0" "clickListeners freshPage = 0"
  "testButtons freshPage = 0"
  by (simp_all add: freshPage_def)

section \<open>The distortion counter\<close>

text \<open>
  C1. From a clean state (level 0, humanity 100), along any number of claim events the
  distortion level never decreases, never exceeds 5, and the humanity percentage is
  \<open>max 0 (100 - 20 * level)\<close> after every call of \<^verbatim>\<open>processHumanClaim\<close>.
\<close>

theorem distortion_invariant:
  assumes "distortionLevel s = 0" and "humanityPercentage s = 100"
  shows "(m \<le> n \<longrightarrow> distortionLevel (claimEvents m s) \<le> distortionLevel (claimEvents n s)) \<and>
         distortionLevel (claimEvents n s) \<le> 5 \<and>
         humanityPercentage (claimEvents n s)
           = max 0 (100 - 20 * distortionLevel (claimEvents n s))"
proof -
  from assms have "consistent s" by (simp add: consistent_def)
  then have "consistent (claimEvents n s)" by (rule consistent_claimEvents)
  then show ?thesis by (simp add: consistent_def level_mono)
qed

theorem distortion_invariant_witness:
  "distortionLevel freshPage = 0 \<and> humanityPercentage freshPage = 100 \<and>
   distortionLevel (claimEvents 1 freshPage) \<le> distortionLevel (claimEvents 2 freshPage) \<and>
   distortionLevel (claimEvents 2 freshPage) = 2 \<and>
   humanityPercentage (claimEvents 2 freshPage) = 60"
proof -
  have c: "distortionLevel (claimEvents 2 freshPage) = 2"
    by (simp add: eval_nat_numeral claimEvents_Suc claimEvents_0 claim_level freshPage_fields)
  from distortion_invariant [OF freshPage_fields(1,2), of 1 2] c show ?thesis
    by (simp add: freshPage_fields)
qed

text \<open>
  C2. A claim event delivered at level 5 changes nothing: \<^verbatim>\<open>processHumanClaim\<close> returns the
  state it was given, pending timers included, so no second verdict transition is scheduled,
  and every event that carries a claim leaves the state as it is.
\<close>

theorem claim_at_ceiling_noop:
  assumes "distortionLevel s = maxDistortionLevel"
  shows "processHumanClaim s = s \<and>
         processHumanClaim (processHumanClaim s) = processHumanClaim s \<and>
         timers (processHumanClaim s) = timers s \<and>
         step (Result utterance) s = s \<and> step (KeyDown code key) s = s \<and>
         step WebcamClick s = s \<and> step TestButtonClick s = s"
proof -
  from assms have claim: "processHumanClaim s = s"
    by (simp add: claim_ceiling maxDistortionLevel_def)
  have handler: "keydownHandler code key s = s"
    by (simp add: keydownHandler_def claim)
  show ?thesis
    by (simp add: claim onresult_def Let_def funpow_fixed [where f = "keydownHandler code key" and s = s, OF handler]
        funpow_fixed [where f = processHumanClaim and s = s, OF claim])
qed

theorem claim_at_ceiling_noop_witness:
  "distortionLevel (claimEvents 5 freshPage) = maxDistortionLevel \<and>
   processHumanClaim (claimEvents 5 freshPage) = claimEvents 5 freshPage \<and>
   timers (processHumanClaim (claimEvents 5 freshPage)) = timers (claimEvents 5 freshPage)"
proof -
  have a: "distortionLevel (claimEvents 5 freshPage) = maxDistortionLevel"
    by (simp add: eval_nat_numeral claimEvents_Suc claimEvents_0 claim_level freshPage_fields
        maxDistortionLevel_def)
  from claim_at_ceiling_noop [OF a] a show ?thesis by simp
qed

text \<open>
  C10. Below level 5, \<^verbatim>\<open>processHumanClaim\<close> raises the level by one and recomputes the
  humanity percentage; \<^verbatim>\<open>isListening\<close>, \<^verbatim>\<open>fallbackActive\<close> and \<^verbatim>\<open>retryCount\<close> are as before.
\<close>

theorem claim_frame_below_ceiling:
  assumes "distortionLevel s < maxDistortionLevel"
  shows "isListening (processHumanClaim s) = isListening s \<and>
         fallbackActive (processHumanClaim s) = fallbackActive s \<and>
         retryCount (processHumanClaim s) = retryCount s \<and>
         distortionLevel (processHumanClaim s) = distortionLevel s + 1 \<and>
         humanityPercentage (processHumanClaim s) = max 0 (100 - 20 * (distortionLevel s + 1))"
  using assms by (simp add: claim_level claim_humanity maxDistortionLevel_def)

theorem claim_frame_below_ceiling_witness:
  "distortionLevel listeningPage < maxDistortionLevel \<and>
   isListening (processHumanClaim listeningPage) \<and>
   \<not> fallbackActive (processHumanClaim listeningPage) \<and>
   retryCount (processHumanClaim listeningPage) = 0 \<and>
   distortionLevel (processHumanClaim listeningPage) = 1 \<and>
   humanityPercentage (processHumanClaim listeningPage) = 80"
proof -
  have f: "distortionLevel listeningPage = 0" "isListening listeningPage"
    "\<not> fallbackActive listeningPage" "retryCount listeningPage = 0"
    by (simp_all add: listeningPage_def init_def setupEventListeners_def
        setupAudioDetection_def setupSpeechRecognition_def Let_def freshPage_fields)
  then have a: "distortionLevel listeningPage < maxDistortionLevel"
    by (simp add: maxDistortionLevel_def)
  from claim_frame_below_ceiling [OF a] f show ?thesis
    by (simp add: maxDistortionLevel_def)
qed

section \<open>Phrase matching\<close>

lemma includes_str_sublist: "includes_str s p \<longleftrightarrow> sublist p s"
  by (induction s) (simp_all add: sublist_Cons_right)

lemma whitespace_lower: "isWhiteSpace c \<Longrightarrow> lowerChar c = c"
  by (auto simp: isWhiteSpace_def lowerChar_def Let_def)

lemma whitespace_toLowerCase: "\<forall>c\<in>set w. isWhiteSpace c \<Longrightarrow> toLowerCase w = w"
  by (simp add: toLowerCase_def whitespace_lower map_idI)

lemma trim_padding:
  assumes "\<forall>c\<in>set l. isWhiteSpace c" and "\<forall>c\<in>set r. isWhiteSpace c"
  shows "trim (l @ u @ r) = trim u"
proof -
  have front: "dropWhile isWhiteSpace (l @ u @ r) = dropWhile isWhiteSpace (u @ r)"
    using assms(1) by (simp add: dropWhile_append2)
  show ?thesis
  proof (cases "\<forall>c\<in>set u. isWhiteSpace c")
    case True
    with assms have all: "dropWhile isWhiteSpace (l @ u @ r) = []"
      by (simp add: ball_Un)
    from True have inner: "dropWhile isWhiteSpace u = []"
      by simp
    show ?thesis unfolding trim_def all inner ..
  next
    case False
    then obtain x where "x \<in> set u" "\<not> isWhiteSpace x" by blast
    then have rest: "dropWhile isWhiteSpace (u @ r) = dropWhile isWhiteSpace u @ r"
      by (simp add: dropWhile_append1)
    have "dropWhile isWhiteSpace (rev r @ rev (dropWhile isWhiteSpace u))
            = dropWhile isWhiteSpace (rev (dropWhile isWhiteSpace u))"
      by (rule dropWhile_append2) (use assms(2) in simp)
    then show ?thesis unfolding trim_def front rest by simp
  qed
qed

lemma normalise_padding:
  assumes "\<forall>c\<in>set l. isWhiteSpace c" and "\<forall>c\<in>set r. isWhiteSpace c"
  shows "normalise (l @ u @ r) = normalise u"
proof -
  have "toLowerCase (l @ u @ r) = l @ toLowerCase u @ r"
    using whitespace_toLowerCase [OF assms(1)] whitespace_toLowerCase [OF assms(2)]
    by (simp add: toLowerCase_def)
  then show ?thesis by (simp add: normalise_def trim_padding [OF assms])
qed

lemma matches_shouted: "phraseMatches ''I AM HUMAN!''"
  by code_simp

lemma matches_embedded: "phraseMatches ''well, i am a human being, yes''"
  by code_simp

lemma no_match_negated: "\<not> phraseMatches ''i am not human''"
  by code_simp

text \<open>
  C3, as the script has it. The \<^verbatim>\<open>onresult\<close> handler delivers a claim exactly when the
  utterance matches. Matching ignores case and surrounding white space, and
  \<^verbatim>\<open>I AM HUMAN!\<close> and \<^verbatim>\<open>well, i am a human being, yes\<close> match. \<^verbatim>\<open>i am not human\<close> does not
  match: \<^verbatim>\<open>includes\<close> wants a phrase as one contiguous run, and \<^verbatim>\<open>not\<close> splits every one.
\<close>

theorem phrase_matching:
  "onresult u s = (if phraseMatches u then processHumanClaim s else s) \<and>
   (toLowerCase u = toLowerCase v \<longrightarrow> phraseMatches u = phraseMatches v) \<and>
   ((\<forall>c\<in>set l. isWhiteSpace c) \<and> (\<forall>c\<in>set r. isWhiteSpace c) \<longrightarrow>
      phraseMatches (l @ u @ r) = phraseMatches u) \<and>
   phraseMatches ''I AM HUMAN!'' \<and>
   phraseMatches ''well, i am a human being, yes'' \<and>
   \<not> phraseMatches ''i am not human''"
  by (simp add: onresult_def Let_def
      phraseMatches_def normalise_def normalise_padding [unfolded normalise_def]
      matches_shouted [unfolded phraseMatches_def normalise_def]
      matches_embedded [unfolded phraseMatches_def normalise_def]
      no_match_negated [unfolded phraseMatches_def normalise_def])

theorem phrase_matching_witness:
  "toLowerCase ''I Am Human'' = toLowerCase ''i aM hUMAN'' \<and>
   phraseMatches ''I Am Human'' = phraseMatches ''i aM hUMAN'' \<and>
   isWhiteSpace CHR '' '' \<and>
   phraseMatches ('' '' @ ''I Am Human'' @ '' '') = phraseMatches ''I Am Human''"
proof -
  have a: "toLowerCase ''I Am Human'' = toLowerCase ''i aM hUMAN''" by code_simp
  have b: "\<forall>c\<in>set '' ''. isWhiteSpace c" by (simp add: isWhiteSpace_def)
  from phrase_matching [of "''I Am Human''" s "''i aM hUMAN''" "'' ''" "'' ''" for s] a b
  show ?thesis by simp
qed

text \<open>C3 as the specification states it fails on its third utterance.\<close>

theorem negated_phrase_counterexample: "\<not> phraseMatches ''i am not human''"
  by code_simp


section \<open>The error handler\<close>

lemma fallback_fields [simp]:
  "fallbackActive (fallbackToAlternativeMethods s)"
  "\<not> isListening (fallbackToAlternativeMethods s)"
  "retryCount (fallbackToAlternativeMethods s) = 0"
  "recognition (fallbackToAlternativeMethods s) = recognition s"
  "distortionLevel (fallbackToAlternativeMethods s) = distortionLevel s"
  "humanityPercentage (fallbackToAlternativeMethods s) = humanityPercentage s"
  "verdictOverlayDisplay (fallbackToAlternativeMethods s) = verdictOverlayDisplay s"
  "timers (fallbackToAlternativeMethods s) = timers s"
  "keydownListeners (fallbackToAlternativeMethods s) = Suc (keydownListeners s)"
  "clickListeners (fallbackToAlternativeMethods s) = Suc (clickListeners s)"
  "testButtons (fallbackToAlternativeMethods s) = Suc (testButtons s)"
  by (simp_all add: fallbackToAlternativeMethods_def addTestButton_def
      enableFallbackControls_def)

lemma shouldRestart_iff: "shouldRestart e \<longleftrightarrow> e \<notin> set permanentErrors"
  by (simp add: shouldRestart_def permanentErrors_def)

lemma handleSpeechError_retry:
  assumes "shouldRestart e" and "isListening s" and "retryCount s < 5"
  shows "retryCount (handleSpeechError e s) = retryCount s + 1"
    and "isListening (handleSpeechError e s)"
    and "fallbackActive (handleSpeechError e s) = fallbackActive s"
    and "recognition (handleSpeechError e s) = recognition s"
    and "timers (handleSpeechError e s) = timers s @ [(2000, RetryRestart)]"
    and "keydownListeners (handleSpeechError e s) = keydownListeners s"
    and "clickListeners (handleSpeechError e s) = clickListeners s"
    and "testButtons (handleSpeechError e s) = testButtons s"
  using assms by (simp_all add: handleSpeechError_def Let_def maxRetries_def retryDelay_def)

lemma handleSpeechError_exhausted:
  assumes "shouldRestart e" and "isListening s" and "5 \<le> retryCount s"
  shows "handleSpeechError e s = fallbackToAlternativeMethods (s\<lparr>retryCount := retryCount s + 1\<rparr>)"
  using assms by (simp add: handleSpeechError_def Let_def maxRetries_def)

lemma handleSpeechError_serious:
  assumes "\<not> (shouldRestart e \<and> isListening s)"
  shows "handleSpeechError e s =
           setTimeout SeriousErrorFallback 2000
             (showListeningIndicator (''Error: '' @ speechErrorMessage e) s)"
  by (simp only: handleSpeechError_def assms if_False)

lemma speechErrors_Nil: "speechErrors [] s = s"
  by (simp add: speechErrors_def)

lemma speechErrors_Cons: "speechErrors (e # es) s = speechErrors es (handleSpeechError e s)"
  by (simp add: speechErrors_def)

lemma speechErrors_snoc: "speechErrors (es @ [e]) s = handleSpeechError e (speechErrors es s)"
  by (simp add: speechErrors_def)

lemma speechErrors_within_budget:
  assumes "\<forall>e\<in>set es. shouldRestart e" and "isListening s"
    and "retryCount s + int (length es) \<le> 5"
  shows "retryCount (speechErrors es s) = retryCount s + int (length es) \<and>
         isListening (speechErrors es s) \<and>
         fallbackActive (speechErrors es s) = fallbackActive s \<and>
         keydownListeners (speechErrors es s) = keydownListeners s \<and>
         clickListeners (speechErrors es s) = clickListeners s \<and>
         testButtons (speechErrors es s) = testButtons s \<and>
         timers (speechErrors es s) = timers s @ replicate (length es) (2000, RetryRestart)"
  using assms
proof (induction es arbitrary: s)
  case Nil
  then show ?case by (simp add: speechErrors_Nil)
next
  case (Cons e es)
  from Cons.prems have e: "shouldRestart e" and budget: "retryCount s < 5"
    by simp_all
  note step = handleSpeechError_retry [OF e Cons.prems(2) budget]
  have "retryCount (handleSpeechError e s) + int (length es) \<le> 5"
    using Cons.prems(3) by (simp add: step(1))
  with Cons.prems(1) step(2)
  have "retryCount (speechErrors es (handleSpeechError e s))
          = retryCount (handleSpeechError e s) + int (length es) \<and>
        isListening (speechErrors es (handleSpeechError e s)) \<and>
        fallbackActive (speechErrors es (handleSpeechError e s))
          = fallbackActive (handleSpeechError e s) \<and>
        keydownListeners (speechErrors es (handleSpeechError e s))
          = keydownListeners (handleSpeechError e s) \<and>
        clickListeners (speechErrors es (handleSpeechError e s))
          = clickListeners (handleSpeechError e s) \<and>
        testButtons (speechErrors es (handleSpeechError e s))
          = testButtons (handleSpeechError e s) \<and>
        timers (speechErrors es (handleSpeechError e s))
          = timers (handleSpeechError e s) @ replicate (length es) (2000, RetryRestart)"
    by (intro Cons.IH) simp_all
  then show ?case by (simp add: speechErrors_Cons step)
qed

lemma listeningPage_fields:
  "distortionLevel listeningPage = 0" "isListening listeningPage"
  "\<not> fallbackActive listeningPage" "retryCount listeningPage = 0"
  "recognition listeningPage" "keydownListeners listeningPage = 0"
  "clickListeners listeningPage = 0" "testButtons listeningPage = 0"
  "listeningIndicator listeningPage = Some (''Initializing...'', ''block'')"
  "timers listeningPage = []"
  by (simp_all add: listeningPage_def init_def setupEventListeners_def
      setupAudioDetection_def setupSpeechRecognition_def Let_def freshPage_fields
      showListeningIndicator_text)

lemma keydownHandler_designated:
  "code = ''Space'' \<or> toLowerCase key = ''h'' \<Longrightarrow> keydownHandler code key = processHumanClaim"
  by (rule ext) (simp add: keydownHandler_def)

text \<open>
  C4, as the script has it. The handler restarts while \<^verbatim>\<open>retryCount <= maxRetries\<close> after the
  increment, so each of the first five transient errors in a row schedules one restart,
  \<^verbatim>\<open>retryDelay\<close> (2000 ms) later, and leaves the session listening, with the counter at the
  number of errors; the restart callback, when \<^verbatim>\<open>recognition.start()\<close> returns, keeps the
  session listening and the counter as it is. It is the sixth error (\<^verbatim>\<open>maxRetries + 1\<close>)
  that enters fallback mode, and it schedules no restart: \<^verbatim>\<open>fallbackActive\<close> true,
  \<^verbatim>\<open>isListening\<close> false, \<^verbatim>\<open>retryCount\<close> 0. From then on the designated keys, a click on
  the mirror and the test button each call \<^verbatim>\<open>processHumanClaim\<close>, once for every time
  fallback mode was entered.
\<close>

theorem fallback_after_retries_exhausted:
  assumes "retryCount s = 0" and "isListening s"
    and "\<forall>e\<in>set errors. e \<notin> set permanentErrors"
    and "int (length errors) = maxRetries + 1"
  shows "(k \<le> 5 \<longrightarrow>
            retryCount (speechErrors (take k errors) s) = int k \<and>
            isListening (speechErrors (take k errors) s) \<and>
            fallbackActive (speechErrors (take k errors) s) = fallbackActive s \<and>
            timers (speechErrors (take k errors) s)
              = timers s @ replicate k (retryDelay, RetryRestart)) \<and>
         (k < 5 \<longrightarrow>
            timers (speechErrors (take (Suc k) errors) s)
              = timers (speechErrors (take k errors) s) @ [(retryDelay, RetryRestart)] \<and>
            enabled (Timeout retryDelay RetryRestart True) (speechErrors (take (Suc k) errors) s) \<and>
            isListening (step (Timeout retryDelay RetryRestart True)
                           (speechErrors (take (Suc k) errors) s)) \<and>
            retryCount (step (Timeout retryDelay RetryRestart True)
                          (speechErrors (take (Suc k) errors) s)) = int (Suc k)) \<and>
         timers (speechErrors errors s) = timers s @ replicate 5 (retryDelay, RetryRestart) \<and>
         fallbackActive (speechErrors errors s) \<and>
         \<not> isListening (speechErrors errors s) \<and>
         retryCount (speechErrors errors s) = 0 \<and>
         step (KeyDown ''Space'' key) (speechErrors errors s)
           = (processHumanClaim ^^ Suc (keydownListeners s)) (speechErrors errors s) \<and>
         (toLowerCase key = ''h'' \<longrightarrow>
            step (KeyDown code key) (speechErrors errors s)
              = (processHumanClaim ^^ Suc (keydownListeners s)) (speechErrors errors s)) \<and>
         step WebcamClick (speechErrors errors s)
           = (processHumanClaim ^^ Suc (clickListeners s)) (speechErrors errors s) \<and>
         enabled TestButtonClick (speechErrors errors s) \<and>
         step TestButtonClick (speechErrors errors s) = processHumanClaim (speechErrors errors s)"
proof -
  from assms(4) have len: "length errors = 6"
    by (simp add: maxRetries_def)
  from assms(3) have transient: "\<forall>e\<in>set errors. shouldRestart e"
    by (simp add: shouldRestart_iff)
  have before: "retryCount (speechErrors (take k errors) s) = int k \<and>
                isListening (speechErrors (take k errors) s) \<and>
                fallbackActive (speechErrors (take k errors) s) = fallbackActive s \<and>
                keydownListeners (speechErrors (take k errors) s) = keydownListeners s \<and>
                clickListeners (speechErrors (take k errors) s) = clickListeners s \<and>
                testButtons (speechErrors (take k errors) s) = testButtons s \<and>
                timers (speechErrors (take k errors) s)
                  = timers s @ replicate k (2000, RetryRestart)"
    if "k \<le> 5" for k
  proof -
    from transient have "\<forall>e\<in>set (take k errors). shouldRestart e"
      by (meson in_set_takeD)
    moreover from that len assms(1)
    have "retryCount s + int (length (take k errors)) \<le> 5"
      by simp
    ultimately show ?thesis
      using speechErrors_within_budget [of "take k errors" s] assms(1,2) that len
      by simp
  qed
  from len have "length (drop 5 errors) = Suc 0"
    by simp
  then obtain e where sixth: "drop 5 errors = [e]"
    unfolding length_Suc_conv by auto
  then have e: "e \<in> set errors"
    by (metis in_set_dropD list.set_intros(1))
  from sixth have split: "errors = take 5 errors @ [e]"
    by (metis append_take_drop_id)
  define t where "t = speechErrors (take 5 errors) s"
  from before [of 5] have t: "retryCount t = 5" "isListening t"
    "keydownListeners t = keydownListeners s" "clickListeners t = clickListeners s"
    "testButtons t = testButtons s" "timers t = timers s @ replicate 5 (2000, RetryRestart)"
    by (simp_all add: t_def)
  from e transient have "shouldRestart e" by simp
  with t have last: "handleSpeechError e t = fallbackToAlternativeMethods (t\<lparr>retryCount := retryCount t + 1\<rparr>)"
    by (simp add: handleSpeechError_exhausted)
  have final: "speechErrors errors s = fallbackToAlternativeMethods (t\<lparr>retryCount := retryCount t + 1\<rparr>)"
    by (subst split) (simp add: speechErrors_snoc t_def [symmetric] last)
  have after: "fallbackActive (speechErrors errors s)" "\<not> isListening (speechErrors errors s)"
    "retryCount (speechErrors errors s) = 0"
    "keydownListeners (speechErrors errors s) = Suc (keydownListeners s)"
    "clickListeners (speechErrors errors s) = Suc (clickListeners s)"
    "testButtons (speechErrors errors s) = Suc (testButtons s)"
    "timers (speechErrors errors s) = timers s @ replicate 5 (2000, RetryRestart)"
    by (simp_all add: final t)
  have restart:
    "timers (speechErrors (take (Suc k) errors) s)
       = timers (speechErrors (take k errors) s) @ [(2000, RetryRestart)] \<and>
     enabled (Timeout 2000 RetryRestart True) (speechErrors (take (Suc k) errors) s) \<and>
     isListening (step (Timeout 2000 RetryRestart True) (speechErrors (take (Suc k) errors) s)) \<and>
     retryCount (step (Timeout 2000 RetryRestart True) (speechErrors (take (Suc k) errors) s))
       = int (Suc k)"
    if "k < 5"
  proof -
    define u where "u = speechErrors (take (Suc k) errors) s"
    from that before [of k] before [of "Suc k"]
    have u: "timers u = timers (speechErrors (take k errors) s) @ [(2000, RetryRestart)]"
      "isListening u" "retryCount u = int (Suc k)"
      by (simp_all add: u_def replicate_append_same)
    then have "(2000, RetryRestart) \<in> set (timers u)"
      by simp
    with u show ?thesis
      unfolding u_def [symmetric] by (simp add: runTimer_def)
  qed
  show ?thesis
    using before [of k] after restart
    by (simp add: keydownHandler_designated retryDelay_def del: step.simps(5) enabled.simps(5))
qed

theorem fallback_after_retries_exhausted_witness:
  "retryCount listeningPage = 0 \<and> isListening listeningPage \<and>
   ''no-speech'' \<notin> set permanentErrors \<and>
   int (length (replicate 6 ''no-speech'')) = maxRetries + 1 \<and>
   retryCount (speechErrors (take 3 (replicate 6 ''no-speech'')) listeningPage) = 3 \<and>
   timers (speechErrors (take 3 (replicate 6 ''no-speech'')) listeningPage)
     = replicate 3 (retryDelay, RetryRestart) \<and>
   timers (speechErrors (take 4 (replicate 6 ''no-speech'')) listeningPage)
     = timers (speechErrors (take 3 (replicate 6 ''no-speech'')) listeningPage)
         @ [(retryDelay, RetryRestart)] \<and>
   isListening (step (Timeout retryDelay RetryRestart True)
                  (speechErrors (take 4 (replicate 6 ''no-speech'')) listeningPage)) \<and>
   fallbackActive (speechErrors (replicate 6 ''no-speech'') listeningPage) \<and>
   \<not> isListening (speechErrors (replicate 6 ''no-speech'') listeningPage) \<and>
   retryCount (speechErrors (replicate 6 ''no-speech'') listeningPage) = 0 \<and>
   toLowerCase ''H'' = ''h'' \<and>
   step (KeyDown ''KeyH'' ''H'') (speechErrors (replicate 6 ''no-speech'') listeningPage)
     = processHumanClaim (speechErrors (replicate 6 ''no-speech'') listeningPage) \<and>
   step WebcamClick (speechErrors (replicate 6 ''no-speech'') listeningPage)
     = processHumanClaim (speechErrors (replicate 6 ''no-speech'') listeningPage)"
proof -
  have a: "\<forall>e\<in>set (replicate 6 ''no-speech''). e \<notin> set permanentErrors"
    by (simp add: permanentErrors_def)
  have b: "int (length (replicate 6 ''no-speech'')) = maxRetries + 1"
    by (simp add: maxRetries_def)
  have c: "toLowerCase ''H'' = ''h''"
    by code_simp
  from fallback_after_retries_exhausted
         [OF listeningPage_fields(4) listeningPage_fields(2) a b, of 3 "''H''" "''KeyH''"] a b c
  show ?thesis
    by (simp add: listeningPage_fields del: step.simps(5) enabled.simps(5) replicate.simps
        replicate_Suc)
qed

text \<open>
  C4 as the specification states it fails: after exactly five transient errors the session
  still listens, with the counter at 5 and no fallback.
\<close>

theorem five_errors_counterexample:
  "retryCount listeningPage = 0 \<and> isListening listeningPage \<and>
   \<not> fallbackActive (speechErrors (replicate 5 ''no-speech'') listeningPage) \<and>
   isListening (speechErrors (replicate 5 ''no-speech'') listeningPage) \<and>
   retryCount (speechErrors (replicate 5 ''no-speech'') listeningPage) = 5"
  using speechErrors_within_budget [of "replicate 5 ''no-speech''" listeningPage]
  by (simp add: listeningPage_fields shouldRestart_def)

text \<open>
  C8. For each of \<^verbatim>\<open>audio-capture\<close>, \<^verbatim>\<open>not-allowed\<close>, \<^verbatim>\<open>network\<close> and
  \<^verbatim>\<open>service-not-allowed\<close>, whatever the retry counter is, the handler leaves the counter
  alone, writes \<^verbatim>\<open>Error:\<close> and the message to the indicator, and schedules, 2000 ms later,
  the callback that enters fallback mode.
\<close>

theorem permanent_error_falls_back:
  assumes "e \<in> set permanentErrors"
  shows "retryCount (handleSpeechError e s) = retryCount s \<and>
         isListening (handleSpeechError e s) = isListening s \<and>
         fallbackActive (handleSpeechError e s) = fallbackActive s \<and>
         speechErrorMessage e \<noteq> [] \<and>
         (listeningIndicator s \<noteq> None \<longrightarrow>
            listeningIndicator (handleSpeechError e s)
              = Some (''Error: '' @ speechErrorMessage e, ''block'')) \<and>
         timers (handleSpeechError e s) = timers s @ [(2000, SeriousErrorFallback)] \<and>
         enabled (Timeout 2000 SeriousErrorFallback start_ok) (handleSpeechError e s) \<and>
         fallbackActive (step (Timeout 2000 SeriousErrorFallback start_ok) (handleSpeechError e s)) \<and>
         \<not> isListening (step (Timeout 2000 SeriousErrorFallback start_ok) (handleSpeechError e s))"
proof -
  from assms have "\<not> (shouldRestart e \<and> isListening s)"
    by (simp add: shouldRestart_iff)
  then have body: "handleSpeechError e s =
      setTimeout SeriousErrorFallback 2000
        (showListeningIndicator (''Error: '' @ speechErrorMessage e) s)"
    by (rule handleSpeechError_serious)
  from assms have message: "speechErrorMessage e \<noteq> []"
    by (auto simp: permanentErrors_def speechErrorMessage_def)
  show ?thesis
    by (simp add: body message showListeningIndicator_text runTimer_def)
qed

theorem permanent_error_falls_back_witness:
  "''network'' \<in> set permanentErrors \<and>
   retryCount (handleSpeechError ''network'' listeningPage) = 0 \<and>
   listeningIndicator listeningPage \<noteq> None \<and>
   listeningIndicator (handleSpeechError ''network'' listeningPage)
     = Some (''Error: Network error. Please check your connection.'', ''block'') \<and>
   timers (handleSpeechError ''network'' listeningPage) = [(2000, SeriousErrorFallback)] \<and>
   fallbackActive (step (Timeout 2000 SeriousErrorFallback True)
                     (handleSpeechError ''network'' listeningPage))"
proof -
  have a: "''network'' \<in> set permanentErrors"
    by (simp add: permanentErrors_def)
  have m: "speechErrorMessage ''network'' = ''Network error. Please check your connection.''"
    by (simp add: speechErrorMessage_def)
  from permanent_error_falls_back [OF a, of listeningPage True] a
  show ?thesis
    by (simp add: listeningPage_fields m del: step.simps enabled.simps)
qed


section \<open>Reachable states\<close>

lemma showVerdict_fields [simp]:
  "verdictOverlayDisplay (showVerdict s) = ''flex''"
  "\<not> isListening (showVerdict s)"
  "fallbackActive (showVerdict s) = fallbackActive s"
  "retryCount (showVerdict s) = retryCount s"
  "recognition (showVerdict s) = recognition s"
  "distortionLevel (showVerdict s) = distortionLevel s"
  "timers (showVerdict s) = timers s @ [(500, VerdictTextGlitch)]"
  by (simp_all add: showVerdict_def stopListening_def)

lemma resetMirror_fields [simp]:
  "distortionLevel (resetMirror start_ok s) = 0"
  "humanityPercentage (resetMirror start_ok s) = 100"
  "verdictOverlayDisplay (resetMirror start_ok s) = ''none''"
  "fallbackActive (resetMirror start_ok s) = fallbackActive s"
  "recognition (resetMirror start_ok s) = recognition s"
  "timers (resetMirror start_ok s) = timers s"
  by (simp_all add: resetMirror_def Let_def)

lemma resetMirror_retryCount:
  "retryCount (resetMirror start_ok s) = (if recognition s then 0 else retryCount s)"
  by (simp add: resetMirror_def Let_def)

lemma resetMirror_isListening:
  "isListening (resetMirror start_ok s) = (if recognition s \<and> start_ok then True else isListening s)"
  by (simp add: resetMirror_def Let_def)

lemma handleSpeechError_recognition [simp]:
  "recognition (handleSpeechError e s) = recognition s"
  by (simp add: handleSpeechError_def Let_def)

lemma handleSpeechError_sticky:
  "fallbackActive s \<Longrightarrow> fallbackActive (handleSpeechError e s)"
  by (simp add: handleSpeechError_def Let_def)

lemma setupAudioDetection_sticky:
  "fallbackActive s \<Longrightarrow> fallbackActive (setupAudioDetection support s)"
  by (cases support)
     (simp_all add: setupAudioDetection_def setupSpeechRecognition_def Let_def
        handleSpeechError_sticky)

lemma runTimer_sticky: "fallbackActive s \<Longrightarrow> fallbackActive (runTimer t start_ok s)"
  by (cases t) (simp_all add: runTimer_def handleSpeechError_sticky)

lemma keydownHandler_fallbackActive [simp]:
  "fallbackActive (keydownHandler code key s) = fallbackActive s"
  by (simp add: keydownHandler_def)

lemma step_sticky: "fallbackActive s \<Longrightarrow> fallbackActive (step e s)"
proof (cases e)
  case (KeyDown code key)
  assume "fallbackActive s"
  then have "fallbackActive ((keydownHandler code key ^^ keydownListeners s) s)"
    by (rule funpow_preserves [where P = fallbackActive, rotated]) simp
  with KeyDown show ?thesis by simp
next
  case WebcamClick
  assume "fallbackActive s"
  then have "fallbackActive ((processHumanClaim ^^ clickListeners s) s)"
    by (rule funpow_preserves [where P = fallbackActive, rotated]) simp
  with WebcamClick show ?thesis by simp
qed (simp_all add: onresult_def onstart_def onend_def handleSpeechError_sticky
      runTimer_sticky retryWebcam_def retryWebcamResume_def showError_def Let_def
      setupAudioDetection_sticky cleanup_def stopListening_def)

lemma run_Nil: "run [] s = s"
  by (simp add: run_def)

lemma run_Cons: "run (e # es) s = run es (step e s)"
  by (simp add: run_def)

lemma run_sticky: "fallbackActive s \<Longrightarrow> fallbackActive (run es s)"
  by (induction es arbitrary: s) (simp_all add: run_Nil run_Cons step_sticky del: step.simps)

lemma retryInv_indicator [simp]: "retryInv (showListeningIndicator t s) = retryInv s"
  by (simp add: retryInv_def)

lemma retryInv_setTimeout [simp]: "retryInv (setTimeout t d s) = retryInv s"
  by (simp add: retryInv_def)

lemma retryInv_fallback [simp]: "retryInv (fallbackToAlternativeMethods s)"
  by (simp add: retryInv_def maxRetries_def)

lemma retryInv_handleSpeechError: "retryInv s \<Longrightarrow> retryInv (handleSpeechError e s)"
  by (auto simp: handleSpeechError_def Let_def retryInv_def maxRetries_def)

lemma retryInv_claim [simp]: "retryInv (processHumanClaim s) = retryInv s"
  by (simp add: retryInv_def)

lemma retryInv_keydownHandler [simp]: "retryInv (keydownHandler code key s) = retryInv s"
  by (simp add: keydownHandler_def)

lemma retryInv_showVerdict: "retryInv s \<Longrightarrow> retryInv (showVerdict s)"
  by (simp add: retryInv_def)

lemma retryInv_resetMirror: "retryInv s \<Longrightarrow> retryInv (resetMirror start_ok s)"
  by (simp add: retryInv_def resetMirror_retryCount resetMirror_isListening maxRetries_def)

lemma retryInv_setupAudioDetection: "retryInv s \<Longrightarrow> retryInv (setupAudioDetection support s)"
proof (cases support)
  case Unsupported
  then show ?thesis by (simp add: setupAudioDetection_def)
next
  case (Supported start_ok)
  assume "retryInv s"
  then have "retryInv ((showListeningIndicator ''Initializing...'' s)\<lparr>recognition := True\<rparr>)"
    by (simp add: retryInv_def)
  then have "retryInv (handleSpeechError ''start-failed''
               ((showListeningIndicator ''Initializing...'' s)\<lparr>recognition := True\<rparr>))"
    by (rule retryInv_handleSpeechError)
  moreover from \<open>retryInv s\<close>
  have "retryInv ((showListeningIndicator ''Initializing...'' s)
                    \<lparr>recognition := True, isListening := True\<rparr>)"
    by (simp add: retryInv_def)
  ultimately show ?thesis
    using Supported by (simp add: setupAudioDetection_def setupSpeechRecognition_def Let_def)
qed

lemma retryInv_other_fields [simp]:
  "retryInv (s\<lparr>timers := ts\<rparr>) = retryInv s"
  "retryInv (s\<lparr>eventListeners := b\<rparr>) = retryInv s"
  "retryInv (s\<lparr>errorMessageDisplay := d\<rparr>) = retryInv s"
  "retryInv (s\<lparr>overlayDisplay := d\<rparr>) = retryInv s"
  "retryInv (s\<lparr>pendingWebcam := n\<rparr>) = retryInv s"
  "retryInv (s\<lparr>verdictTextAnimation := d\<rparr>) = retryInv s"
  by (simp_all add: retryInv_def)

lemma retryInv_runTimer: "retryInv s \<Longrightarrow> retryInv (runTimer t start_ok s)"
  by (cases t) (simp_all add: runTimer_def retryInv_handleSpeechError retryInv_showVerdict)

lemma retryInv_init: "retryInv s \<Longrightarrow> retryInv (init webcam_ok support s)"
  by (simp add: init_def setupEventListeners_def showError_def retryInv_setupAudioDetection)

lemma retryInv_step: "retryInv s \<Longrightarrow> retryInv (step e s)"
proof (cases e)
  case (KeyDown code key)
  assume "retryInv s"
  then have "retryInv ((keydownHandler code key ^^ keydownListeners s) s)"
    by (rule funpow_preserves [where P = retryInv, rotated]) simp
  with KeyDown show ?thesis by simp
next
  case WebcamClick
  assume "retryInv s"
  then have "retryInv ((processHumanClaim ^^ clickListeners s) s)"
    by (rule funpow_preserves [where P = retryInv, rotated]) simp
  with WebcamClick show ?thesis by simp
next
  case BeforeUnload
  assume "retryInv s"
  with BeforeUnload show ?thesis
    by (simp add: cleanup_def stopListening_def retryInv_def)
qed (simp_all add: onresult_def onstart_def onend_def retryInv_handleSpeechError
      retryInv_runTimer retryInv_resetMirror retryWebcam_def retryWebcamResume_def
      showError_def Let_def retryInv_setupAudioDetection)

lemma retryInv_constructed: "constructed s \<Longrightarrow> retryInv s"
  by (simp add: constructed_def retryInv_def maxRetries_def)

lemma reachable_retryInv: "reachable s \<Longrightarrow> retryInv s"
  by (induction rule: reachable.induct)
     (simp_all add: retryInv_constructed retryInv_init retryInv_step del: step.simps)

lemma reachable_run: "reachable s \<Longrightarrow> allEnabled es s \<Longrightarrow> reachable (run es s)"
  by (induction es arbitrary: s) (simp_all add: run_Nil run_Cons reachable.event del: step.simps)

lemma constructed_freshPage: "constructed freshPage"
  by (simp add: constructed_def freshPage_def)

lemma reachable_listeningPage: "reachable listeningPage"
  unfolding listeningPage_def by (rule reachable.initialised [OF constructed_freshPage])

lemma retried_fields:
  "retryCount (step (RecognitionError ''no-speech'') listeningPage) = 1"
  "isListening (step (RecognitionError ''no-speech'') listeningPage)"
  "recognition (step (RecognitionError ''no-speech'') listeningPage)"
  "timers (step (RecognitionError ''no-speech'') listeningPage) = [(2000, RetryRestart)]"
  using handleSpeechError_retry [of "''no-speech''" listeningPage]
  by (simp_all add: shouldRestart_def listeningPage_fields)

text \<open>
  C5. In every reachable state, \<^verbatim>\<open>resetMirror\<close> leaves the level at 0, the humanity
  percentage at 100, the verdict overlay hidden and the retry counter at 0, whether or not
  its call of \<^verbatim>\<open>recognition.start()\<close> returns.
\<close>

theorem reset_postcondition:
  assumes "reachable s"
  shows "distortionLevel (resetMirror start_ok s) = 0 \<and>
         humanityPercentage (resetMirror start_ok s) = 100 \<and>
         verdictOverlayDisplay (resetMirror start_ok s) = ''none'' \<and>
         retryCount (resetMirror start_ok s) = 0"
proof -
  from assms have "retryInv s" by (rule reachable_retryInv)
  then have "retryCount (resetMirror start_ok s) = 0"
    by (simp add: resetMirror_retryCount retryInv_def)
  then show ?thesis by simp
qed

theorem reset_postcondition_witness:
  "reachable (step (RecognitionError ''no-speech'') listeningPage) \<and>
   retryCount (step (RecognitionError ''no-speech'') listeningPage) = 1 \<and>
   distortionLevel (resetMirror True (step (RecognitionError ''no-speech'') listeningPage)) = 0 \<and>
   humanityPercentage (resetMirror True (step (RecognitionError ''no-speech'') listeningPage)) = 100 \<and>
   verdictOverlayDisplay (resetMirror True (step (RecognitionError ''no-speech'') listeningPage))
     = ''none'' \<and>
   retryCount (resetMirror True (step (RecognitionError ''no-speech'') listeningPage)) = 0"
proof -
  have r: "reachable (step (RecognitionError ''no-speech'') listeningPage)"
    by (rule reachable.event [OF reachable_listeningPage]) (simp add: listeningPage_fields)
  from reset_postcondition [OF r, of True] r retried_fields(1)
  show ?thesis by (simp del: step.simps)
qed

text \<open>
  C6, as the script has it. In every reachable state the retry counter is between 0 and
  \<^verbatim>\<open>maxRetries\<close>; entering fallback mode and resetting the mirror put it back to 0; a
  successful start or restart of the recognition leaves it as it is.
\<close>

theorem retry_counter_range:
  assumes "reachable s"
  shows "0 \<le> retryCount s \<and> retryCount s \<le> maxRetries \<and>
         retryCount (fallbackToAlternativeMethods s) = 0 \<and>
         retryCount (resetMirror start_ok s) = 0 \<and>
         retryCount (onstart s) = retryCount s \<and>
         retryCount (runTimer RetryRestart True s) = retryCount s \<and>
         retryCount (runTimer OnEndRestart True s) = retryCount s \<and>
         retryCount (setupSpeechRecognition True s) = retryCount s"
proof -
  from assms have inv: "retryInv s" by (rule reachable_retryInv)
  then have "retryCount (resetMirror start_ok s) = 0"
    by (simp add: resetMirror_retryCount retryInv_def)
  with inv show ?thesis
    by (simp add: retryInv_def onstart_def runTimer_def setupSpeechRecognition_def)
qed

theorem retry_counter_range_witness:
  "reachable (step (RecognitionError ''no-speech'') listeningPage) \<and>
   retryCount (step (RecognitionError ''no-speech'') listeningPage) = 1 \<and>
   retryCount (fallbackToAlternativeMethods (step (RecognitionError ''no-speech'') listeningPage)) = 0 \<and>
   retryCount (resetMirror False (step (RecognitionError ''no-speech'') listeningPage)) = 0 \<and>
   retryCount (onstart (step (RecognitionError ''no-speech'') listeningPage)) = 1"
proof -
  have r: "reachable (step (RecognitionError ''no-speech'') listeningPage)"
    by (rule reachable.event [OF reachable_listeningPage]) (simp add: listeningPage_fields)
  from retry_counter_range [OF r, of False] r retried_fields(1)
  show ?thesis by (simp del: step.simps)
qed

text \<open>
  C6 as the specification states it fails: after one transient error, the restart timer fires,
  \<^verbatim>\<open>recognition.start()\<close> returns and the backend reports the start, and the counter is still 1.
\<close>

theorem restart_keeps_count_counterexample:
  "reachable (run [RecognitionError ''no-speech'', Timeout 2000 RetryRestart True,
                   RecognitionStart] listeningPage) \<and>
   retryCount (run [RecognitionError ''no-speech'', Timeout 2000 RetryRestart True,
                    RecognitionStart] listeningPage) = 1"
proof -
  let ?s1 = "step (RecognitionError ''no-speech'') listeningPage"
  let ?s2 = "step (Timeout 2000 RetryRestart True) ?s1"
  have s2: "retryCount ?s2 = 1" "recognition ?s2"
    using retried_fields by (simp_all add: runTimer_def del: step.simps(2))
  have "allEnabled [RecognitionError ''no-speech'', Timeout 2000 RetryRestart True,
                    RecognitionStart] listeningPage"
    using retried_fields s2 by (simp add: listeningPage_fields del: step.simps)
  then have "reachable (run [RecognitionError ''no-speech'', Timeout 2000 RetryRestart True,
                             RecognitionStart] listeningPage)"
    by (rule reachable_run [OF reachable_listeningPage])
  moreover have "retryCount (step RecognitionStart ?s2) = 1"
    using s2 by (simp add: onstart_def del: step.simps(2,5))
  ultimately show ?thesis
    by (simp add: run_Nil run_Cons del: step.simps)
qed

text \<open>
  C9. No event clears \<^verbatim>\<open>fallbackActive\<close>. \<^verbatim>\<open>fallbackToAlternativeMethods\<close> sets it, and the
  methods that do not call it leave the flag as it is; \<^verbatim>\<open>resetMirror\<close> does so even when it
  starts the recognition again and sets \<^verbatim>\<open>isListening\<close>.
\<close>

theorem fallback_never_cleared:
  "(fallbackActive s \<longrightarrow> fallbackActive (step e s) \<and> fallbackActive (run es s)) \<and>
   fallbackActive (fallbackToAlternativeMethods s) \<and>
   fallbackActive (resetMirror start_ok s) = fallbackActive s \<and>
   (recognition s \<longrightarrow> isListening (resetMirror True s) \<and>
      fallbackActive (resetMirror True s) = fallbackActive s) \<and>
   fallbackActive (processHumanClaim s) = fallbackActive s \<and>
   fallbackActive (showVerdict s) = fallbackActive s \<and>
   fallbackActive (stopListening s) = fallbackActive s \<and>
   fallbackActive (showListeningIndicator text s) = fallbackActive s \<and>
   fallbackActive (updateDistortion s) = fallbackActive s \<and>
   fallbackActive (showError s) = fallbackActive s \<and>
   fallbackActive (onresult utterance s) = fallbackActive s \<and>
   fallbackActive (onstart s) = fallbackActive s \<and>
   fallbackActive (onend s) = fallbackActive s \<and>
   fallbackActive (retryWebcam s) = fallbackActive s \<and>
   fallbackActive (setupEventListeners s) = fallbackActive s \<and>
   fallbackActive (cleanup s) = fallbackActive s"
  by (simp add: step_sticky run_sticky resetMirror_isListening stopListening_def showError_def
      onresult_def onstart_def onend_def retryWebcam_def setupEventListeners_def cleanup_def
      Let_def del: step.simps)

theorem fallback_never_cleared_witness:
  "fallbackActive (fallbackToAlternativeMethods listeningPage) \<and>
   fallbackActive (step (ResetClick True) (fallbackToAlternativeMethods listeningPage)) \<and>
   fallbackActive (run [ResetClick True, RecognitionStart, WebcamClick]
                     (fallbackToAlternativeMethods listeningPage)) \<and>
   recognition (fallbackToAlternativeMethods listeningPage) \<and>
   isListening (resetMirror True (fallbackToAlternativeMethods listeningPage))"
  using fallback_never_cleared
          [of "fallbackToAlternativeMethods listeningPage" "ResetClick True"
              "[ResetClick True, RecognitionStart, WebcamClick]" True]
  by (simp add: listeningPage_fields del: step.simps)


section \<open>Five claims\<close>

lemma claimEvents_level:
  "distortionLevel s = 0 \<Longrightarrow> k \<le> 5 \<Longrightarrow> distortionLevel (claimEvents k s) = int k"
  by (induction k) (simp_all add: claimEvents_0 claimEvents_Suc claim_level)

lemma claimEvents_humanity:
  assumes "distortionLevel s = 0" and "humanityPercentage s = 100" and "k \<le> 5"
  shows "humanityPercentage (claimEvents k s) = 100 - 20 * int k"
proof -
  from assms(1,2) have "consistent (claimEvents k s)"
    by (intro consistent_claimEvents) (simp add: consistent_def)
  with assms(3) show ?thesis
    by (simp add: consistent_def claimEvents_level [OF assms(1,3)])
qed

lemma claimEvents_indicator_present:
  "listeningIndicator s \<noteq> None \<Longrightarrow> listeningIndicator (claimEvents k s) \<noteq> None"
  by (induction k) (simp_all add: claimEvents_0 claimEvents_Suc claim_indicator_present)

lemma claimEvents_recognition [simp]: "recognition (claimEvents k s) = recognition s"
  by (induction k) (simp_all add: claimEvents_0 claimEvents_Suc)

lemma statusRestore_indicator:
  "listeningIndicator u \<noteq> None \<Longrightarrow>
     listeningIndicator (step (Timeout delay StatusRestore start_ok) u)
       = Some (if recognition u then ''Listening...'' else ''Fallback Mode'', ''block'')"
  by (auto simp: runTimer_def showListeningIndicator_text)

text \<open>
  C7. Five claim events from the clean state take the level through 1, 2, 3, 4, 5. Each
  shows \<^verbatim>\<open>Processing...\<close>. Each of the first four schedules, 1500 ms later, the callback that
  puts \<^verbatim>\<open>Listening...\<close> or \<^verbatim>\<open>Fallback Mode\<close> back; the fifth schedules instead, 2000 ms
  later, \<^verbatim>\<open>showVerdict\<close>, which displays the verdict overlay and stops listening.
\<close>

theorem five_claims_scenario:
  assumes "distortionLevel s = 0" and "humanityPercentage s = 100"
    and "listeningIndicator s \<noteq> None"
  shows "(k \<le> 5 \<longrightarrow> distortionLevel (claimEvents k s) = int k \<and>
                    humanityPercentage (claimEvents k s) = 100 - 20 * int k) \<and>
         (k < 5 \<longrightarrow>
            listeningIndicator (claimEvents (Suc k) s) = Some (''Processing...'', ''block'')) \<and>
         (k < 4 \<longrightarrow>
            timers (claimEvents (Suc k) s) = timers (claimEvents k s) @ [(1500, StatusRestore)] \<and>
            listeningIndicator (step (Timeout 1500 StatusRestore start_ok) (claimEvents (Suc k) s))
              = Some (if recognition s then ''Listening...'' else ''Fallback Mode'', ''block'')) \<and>
         timers (claimEvents 5 s) = timers (claimEvents 4 s) @ [(2000, VerdictTransition)] \<and>
         verdictOverlayDisplay (step (Timeout 2000 VerdictTransition start_ok) (claimEvents 5 s))
           = ''flex'' \<and>
         \<not> isListening (step (Timeout 2000 VerdictTransition start_ok) (claimEvents 5 s))"
proof -
  have levels: "distortionLevel (claimEvents k s) = int k \<and>
                humanityPercentage (claimEvents k s) = 100 - 20 * int k" if "k \<le> 5"
    using that by (simp add: claimEvents_level [OF assms(1)] claimEvents_humanity [OF assms(1,2)])
  have present: "listeningIndicator (claimEvents j s) \<noteq> None" for j
    by (rule claimEvents_indicator_present [OF assms(3)])
  have processing:
    "listeningIndicator (claimEvents (Suc k) s) = Some (''Processing...'', ''block'')" if "k < 5"
  proof -
    from that have "distortionLevel (claimEvents k s) < 5"
      by (simp add: claimEvents_level [OF assms(1)])
    then show ?thesis
      unfolding claimEvents_Suc by (rule claim_indicator) (rule present)
  qed
  have settle:
    "timers (claimEvents (Suc k) s) = timers (claimEvents k s) @ [(1500, StatusRestore)] \<and>
     listeningIndicator (step (Timeout 1500 StatusRestore start_ok) (claimEvents (Suc k) s))
       = Some (if recognition s then ''Listening...'' else ''Fallback Mode'', ''block'')"
    if "k < 4"
  proof -
    from that have "distortionLevel (claimEvents k s) < 4"
      by (simp add: claimEvents_level [OF assms(1)])
    then have "timers (claimEvents (Suc k) s) = timers (claimEvents k s) @ [(1500, StatusRestore)]"
      unfolding claimEvents_Suc by (rule claim_timers(1))
    moreover have "listeningIndicator (step (Timeout 1500 StatusRestore start_ok) (claimEvents (Suc k) s))
       = Some (if recognition s then ''Listening...'' else ''Fallback Mode'', ''block'')"
      using statusRestore_indicator [OF present [of "Suc k"], of 1500 start_ok]
      by (simp del: step.simps)
    ultimately show ?thesis ..
  qed
  have "distortionLevel (claimEvents 4 s) = 4"
    by (simp add: claimEvents_level [OF assms(1)])
  then have "timers (processHumanClaim (claimEvents 4 s))
               = timers (claimEvents 4 s) @ [(2000, VerdictTransition)]"
    by (rule claim_timers(2))
  then have fifth: "timers (claimEvents 5 s) = timers (claimEvents 4 s) @ [(2000, VerdictTransition)]"
    by (simp add: claimEvents_Suc [of 4 s, simplified, symmetric])
  have verdict:
    "verdictOverlayDisplay (step (Timeout 2000 VerdictTransition start_ok) (claimEvents 5 s))
       = ''flex''"
    "\<not> isListening (step (Timeout 2000 VerdictTransition start_ok) (claimEvents 5 s))"
    by (simp_all add: runTimer_def)
  from levels processing settle fifth verdict show ?thesis
    by blast
qed

theorem five_claims_scenario_witness:
  "distortionLevel listeningPage = 0 \<and> humanityPercentage listeningPage = 100 \<and>
   listeningIndicator listeningPage \<noteq> None \<and>
   distortionLevel (claimEvents 3 listeningPage) = 3 \<and>
   humanityPercentage (claimEvents 3 listeningPage) = 40 \<and>
   listeningIndicator (claimEvents 4 listeningPage) = Some (''Processing...'', ''block'') \<and>
   timers (claimEvents 4 listeningPage)
     = timers (claimEvents 3 listeningPage) @ [(1500, StatusRestore)] \<and>
   listeningIndicator (step (Timeout 1500 StatusRestore True) (claimEvents 4 listeningPage))
     = Some (''Listening...'', ''block'') \<and>
   timers (claimEvents 5 listeningPage)
     = timers (claimEvents 4 listeningPage) @ [(2000, VerdictTransition)] \<and>
   verdictOverlayDisplay (step (Timeout 2000 VerdictTransition True) (claimEvents 5 listeningPage))
     = ''flex'' \<and>
   \<not> isListening (step (Timeout 2000 VerdictTransition True) (claimEvents 5 listeningPage))"
proof -
  have h: "humanityPercentage listeningPage = 100"
    by (simp add: listeningPage_def init_def setupEventListeners_def setupAudioDetection_def
        setupSpeechRecognition_def Let_def freshPage_fields)
  have i: "listeningIndicator listeningPage \<noteq> None"
    by (simp add: listeningPage_fields)
  from five_claims_scenario [OF listeningPage_fields(1) h i, of 3 True] h i
  show ?thesis
    by (simp add: listeningPage_fields del: step.simps)
qed

end
